theory Spec2Isabelle
  imports Main
begin

section \<open>JavaScript values and strings\<close>

text \<open>
  The fan-out publish handler is a Node.js module of four exported functions:
  \<open>handler\<close>, \<open>publishSubReddits\<close>, \<open>getSubRedditList\<close> and \<open>checkEnvSetup\<close>.
  It reads its configuration from \<open>process.env\<close>, where every variable is either a string
  or \<open>undefined\<close>: such a value is a \<open>string option\<close>, \<open>None\<close> for \<open>undefined\<close>.

  A string is a list of bytes, the UTF-8 encoding of the JavaScript string. The handler only
  tests strings for emptiness, compares them with ASCII literals, splits them at the ASCII
  comma and quotes them for JSON, and each of these acts on the UTF-8 bytes as it does on the
  UTF-16 code units of a well-formed string.
\<close>

text \<open>The truth value JavaScript gives a string or \<open>undefined\<close> in a condition.\<close>

definition truthy :: "string option \<Rightarrow> bool" where
  "truthy v = (case v of None \<Rightarrow> False | Some s \<Rightarrow> s \<noteq> [])"

text \<open>
  The values the handler throws or passes on: \<open>Error(message)\<close> as the handler itself
  constructs it, the \<open>TypeError\<close> of reading a property of \<open>undefined\<close>, and an error of
  the service client, with its code.
\<close>

datatype error = Error string | TypeError | ServiceError string

text \<open>
  \<open>String.prototype.split\<close> with a separator of one character: the pieces between the
  occurrences of the separator, in order, empty pieces kept.
\<close>

fun String_split :: "char \<Rightarrow> string \<Rightarrow> string list" where
  "String_split sep [] = [[]]"
| "String_split sep (c # cs) =
     (if c = sep then [] # String_split sep cs
      else (case String_split sep cs of
              [] \<Rightarrow> [[c]]
            | t # ts \<Rightarrow> (c # t) # ts))"

text \<open>\<open>Array.prototype.join\<close> on strings.\<close>

fun Array_join :: "string \<Rightarrow> string list \<Rightarrow> string" where
  "Array_join sep [] = []"
| "Array_join sep [x] = x"
| "Array_join sep (x # y # ys) = x @ sep @ Array_join sep (y # ys)"

subsection \<open>JSON.stringify\<close>

text \<open>
  \<open>JSON.stringify\<close> on an object whose property values are strings or \<open>undefined\<close>,
  after ECMAScript's QuoteJSONString and SerializeJSONObject: a string is put between double
  quotes with the double quote, the backslash and the control characters escaped, and a
  property whose value is \<open>undefined\<close> is left out.
\<close>

definition hex_digit :: "nat \<Rightarrow> char" where
  "hex_digit n = ''0123456789abcdef'' ! (n mod 16)"

definition QuoteJSONChar :: "char \<Rightarrow> string" where
  "QuoteJSONChar c =
     (if c = CHR 0x08 then [CHR 0x5C, CHR ''b'']
      else if c = CHR 0x09 then [CHR 0x5C, CHR ''t'']
      else if c = CHR 0x0A then [CHR 0x5C, CHR ''n'']
      else if c = CHR 0x0C then [CHR 0x5C, CHR ''f'']
      else if c = CHR 0x0D then [CHR 0x5C, CHR ''r'']
      else if c = CHR 0x22 then [CHR 0x5C, CHR 0x22]
      else if c = CHR 0x5C then [CHR 0x5C, CHR 0x5C]
      else if (of_char c :: nat) < 32 then
        [CHR 0x5C, CHR ''u'', CHR ''0'', CHR ''0'',
         hex_digit (of_char c div 16), hex_digit (of_char c mod 16)]
      else [c])"

definition QuoteJSONString :: "string \<Rightarrow> string" where
  "QuoteJSONString s = CHR 0x22 # concat (map QuoteJSONChar s) @ [CHR 0x22]"

definition SerializeJSONProperty :: "string \<times> string option \<Rightarrow> string option" where
  "SerializeJSONProperty p =
     (case snd p of
        None \<Rightarrow> None
      | Some v \<Rightarrow> Some (QuoteJSONString (fst p) @ '':'' @ QuoteJSONString v))"

definition JSON_stringify :: "(string \<times> string option) list \<Rightarrow> string" where
  "JSON_stringify props =
     ''{'' @ Array_join '','' (List.map_filter SerializeJSONProperty props) @ ''}''"

section \<open>The process environment\<close>

record env =
  EVENT_BUS_NAME :: "string option"
  SUBREDDIT_PUBLISH_NAMESPACE :: "string option"
  SOURCE_DDB_TABLE :: "string option"
  READ_SUBREDDITS_FROM_DDB :: "string option"
  SUBREDDITS_TO_FOLLOW :: "string option"

section \<open>The two service clients\<close>

text \<open>
  The handler calls two operations of the AWS SDK: \<open>EventBridge.putEvents\<close> and
  \<open>DynamoDB.scan\<close>. Their requests and the parts of their responses the handler reads are
  records; what the services answer is not the handler's to decide and is a parameter of the
  model.
\<close>

record put_events_request_entry =
  EventBusName :: "string option"
  DetailType :: string
  Source :: "string option"
  Detail :: string

record put_events_request =
  Entries :: "put_events_request_entry list"

record put_events_response =
  FailedEntryCount :: int

text \<open>A DynamoDB attribute value carries exactly one type tag; \<open>.S\<close> reads the string one.\<close>

datatype attribute_value =
    AttrS string
  | AttrN string
  | AttrB string
  | AttrSS "string list"
  | AttrNS "string list"
  | AttrBS "string list"
  | AttrM "(string \<times> attribute_value) list"
  | AttrL "attribute_value list"
  | AttrNULL bool
  | AttrBOOL bool

fun attr_S :: "attribute_value \<Rightarrow> string option" where
  "attr_S (AttrS s) = Some s"
| "attr_S _ = None"

type_synonym item = "string \<rightharpoonup> attribute_value"

record scan_input =
  TableName :: "string option"

record scan_output =
  Items :: "item list"

text \<open>
  The services: each operation takes the state of the outside world and the request, and
  gives back either the error the pending call is rejected with or the response, and the
  next state. The answer to a call may so depend on every call before it.
\<close>

record 's aws =
  scan :: "'s \<Rightarrow> scan_input \<Rightarrow> (error + scan_output) \<times> 's"
  putEvents :: "'s \<Rightarrow> put_events_request \<Rightarrow> (error + put_events_response) \<times> 's"

text \<open>What an invocation does to the outside: the service calls, in order.\<close>

datatype call = ScanCall scan_input | PutEventsCall put_events_request

text \<open>
  The console lines, one constructor per \<open>console.debug\<close> or \<open>console.error\<close> of the
  source, with the value the line prints.
\<close>

datatype log_line =
    DebugPublishResponse put_events_response
  | ErrorFailedToPublish "string option"
  | ErrorPublishing error
  | DebugDDBResponse scan_output
  | ErrorDDB error
  | DebugPublishingFollowing "string list"

record 's world =
  service :: 's
  calls :: "call list"
  console :: "log_line list"

section \<open>The handler\<close>

subsection \<open>checkEnvSetup\<close>

text \<open>The message of the error \<open>checkEnvSetup\<close> throws; it names the variables in double quotes.\<close>

definition env_not_set_message :: string where
  "env_not_set_message =
     ''Some or all of environment variables not set. Please check if '' @
     [CHR 0x22] @ ''EVENT_BUS_NAME'' @ [CHR 0x22] @ '', '' @
     [CHR 0x22] @ ''SUBREDDIT_PUBLISH_NAMESPACE'' @ [CHR 0x22] @ '', and  '' @
     [CHR 0x22] @ ''SOURCE_DDB_TABLE'' @ [CHR 0x22] @
     '' variables are set with appropriate values''"

definition checkEnvSetup :: "env \<Rightarrow> error + unit" where
  "checkEnvSetup e =
     (if \<not> (truthy (EVENT_BUS_NAME e) \<and> truthy (SUBREDDIT_PUBLISH_NAMESPACE e)
             \<and> truthy (SOURCE_DDB_TABLE e))
      then Inl (Error env_not_set_message)
      else Inr ())"

subsection \<open>publishSubReddits\<close>

text \<open>
  The argument of \<open>putEvents\<close> for one identifier (lines 30 to 39 of the source): a single
  entry, built from the environment and the identifier. An identifier is a JavaScript value,
  a string or \<open>undefined\<close>: the table scan yields \<open>undefined\<close> for an attribute that is not
  of the string type.
\<close>

definition putEvents_params :: "env \<Rightarrow> string option \<Rightarrow> put_events_request" where
  "putEvents_params e subreddit =
     \<lparr>Entries =
        [\<lparr>EventBusName = EVENT_BUS_NAME e,
          DetailType = ''subreddit'',
          Source = SUBREDDIT_PUBLISH_NAMESPACE e,
          Detail = JSON_stringify [(''name'', subreddit), (''type'', Some ''subreddit'')]\<rparr>]\<rparr>"

text \<open>
  The \<open>for ... of\<close> loop, one \<open>putEvents\<close> per identifier. A rejected call is caught, logged
  and thrown again, which ends the loop; a response is logged, and logged once more as an
  error when it counts a failed entry, and the loop goes on.
\<close>

fun publishSubReddits ::
  "'s aws \<Rightarrow> env \<Rightarrow> string option list \<Rightarrow> 's world \<Rightarrow> (error + unit) \<times> 's world" where
  "publishSubReddits eventBridge e [] w = (Inr (), w)"
| "publishSubReddits eventBridge e (subreddit # rest) w =
     (case putEvents eventBridge (service w) (putEvents_params e subreddit) of
        (Inl err, s') \<Rightarrow>
          (Inl err,
           w\<lparr>service := s',
             calls := calls w @ [PutEventsCall (putEvents_params e subreddit)],
             console := console w @ [ErrorPublishing err]\<rparr>)
      | (Inr response, s') \<Rightarrow>
          publishSubReddits eventBridge e rest
            (w\<lparr>service := s',
               calls := calls w @ [PutEventsCall (putEvents_params e subreddit)],
               console := console w @ [DebugPublishResponse response] @
                 (if FailedEntryCount response > 0 then [ErrorFailedToPublish subreddit]
                  else [])\<rparr>))"

subsection \<open>getSubRedditList\<close>

text \<open>
  \<open>ddbResponse.Items.map((item) => item.SUB_REDDIT.S)\<close>: reading \<open>.S\<close> of a missing
  \<open>SUB_REDDIT\<close> attribute throws a \<open>TypeError\<close>.
\<close>

fun Items_map :: "item list \<Rightarrow> error + string option list" where
  "Items_map [] = Inr []"
| "Items_map (item # items) =
     (case item ''SUB_REDDIT'' of
        None \<Rightarrow> Inl TypeError
      | Some a \<Rightarrow>
          (case Items_map items of
             Inl err \<Rightarrow> Inl err
           | Inr names \<Rightarrow> Inr (attr_S a # names)))"

definition no_source_message :: string where
  "no_source_message = ''Neither environment variable nor Dynamodb setup for subreddits to follow''"

definition getSubRedditList ::
  "'s aws \<Rightarrow> env \<Rightarrow> 's world \<Rightarrow> (error + string option list) \<times> 's world" where
  "getSubRedditList ddb e w =
     (if READ_SUBREDDITS_FROM_DDB e = Some ''TRUE'' then
        (case scan ddb (service w) \<lparr>TableName = SOURCE_DDB_TABLE e\<rparr> of
           (Inl ddbError, s') \<Rightarrow>
             (Inl ddbError,
              w\<lparr>service := s',
                calls := calls w @ [ScanCall \<lparr>TableName = SOURCE_DDB_TABLE e\<rparr>],
                console := console w @ [ErrorDDB ddbError]\<rparr>)
         | (Inr ddbResponse, s') \<Rightarrow>
             (case Items_map (Items ddbResponse) of
                Inl ddbError \<Rightarrow>
                  (Inl ddbError,
                   w\<lparr>service := s',
                     calls := calls w @ [ScanCall \<lparr>TableName = SOURCE_DDB_TABLE e\<rparr>],
                     console := console w @ [DebugDDBResponse ddbResponse, ErrorDDB ddbError]\<rparr>)
              | Inr names \<Rightarrow>
                  (Inr names,
                   w\<lparr>service := s',
                     calls := calls w @ [ScanCall \<lparr>TableName = SOURCE_DDB_TABLE e\<rparr>],
                     console := console w @ [DebugDDBResponse ddbResponse]\<rparr>)))
      else
        (case SUBREDDITS_TO_FOLLOW e of
           None \<Rightarrow> (Inl (Error no_source_message), w)
         | Some s \<Rightarrow>
             (if truthy (Some s) \<and> length s > 0 then
                (Inr (map Some (String_split CHR '','' s)),
                 w\<lparr>console := console w @
                      [DebugPublishingFollowing (String_split CHR '','' s)]\<rparr>)
              else (Inl (Error no_source_message), w))))"

subsection \<open>handler\<close>

text \<open>
  The entry point: the check, then the list, then the loop, each reached only when the one
  before returned. The \<open>event\<close> argument is not read.
\<close>

definition handler :: "'s aws \<Rightarrow> env \<Rightarrow> 's world \<Rightarrow> (error + unit) \<times> 's world" where
  "handler aws e w =
     (case checkEnvSetup e of
        Inl err \<Rightarrow> (Inl err, w)
      | Inr _ \<Rightarrow>
          (case getSubRedditList aws e w of
             (Inl err, w') \<Rightarrow> (Inl err, w')
           | (Inr subreddits, w') \<Rightarrow> publishSubReddits aws e subreddits w'))"

section \<open>Concrete services and environments\<close>

text \<open>
  Inputs the theorems below are run on. The service state of \<open>counting_aws\<close> counts the
  calls made so far: the scan answers with a fixed result, and \<open>putEvents\<close> answers the
  call number \<open>n\<close> (from 0) with \<open>put_result n\<close>.
\<close>

definition counting_aws ::
  "(error + scan_output) \<Rightarrow> (nat \<Rightarrow> error + put_events_response) \<Rightarrow> nat aws" where
  "counting_aws scan_result put_result =
     \<lparr>scan = (\<lambda>n params. (scan_result, Suc n)),
      putEvents = (\<lambda>n request. (put_result n, Suc n))\<rparr>"

definition static_env :: "string \<Rightarrow> env" where
  "static_env s =
     \<lparr>EVENT_BUS_NAME = Some ''bus1'', SUBREDDIT_PUBLISH_NAMESPACE = Some ''ns1'',
      SOURCE_DDB_TABLE = Some ''t1'', READ_SUBREDDITS_FROM_DDB = None,
      SUBREDDITS_TO_FOLLOW = Some s\<rparr>"

definition table_env :: env where
  "table_env =
     \<lparr>EVENT_BUS_NAME = Some ''bus1'', SUBREDDIT_PUBLISH_NAMESPACE = Some ''ns1'',
      SOURCE_DDB_TABLE = Some ''t1'', READ_SUBREDDITS_FROM_DDB = Some ''TRUE'',
      SUBREDDITS_TO_FOLLOW = None\<rparr>"

definition start :: "nat world" where
  "start = \<lparr>service = 0, calls = [], console = []\<rparr>"

text \<open>A table row: the identifier in \<open>SUB_REDDIT\<close>, beside an attribute the handler does not read.\<close>

definition row :: "string \<Rightarrow> item" where
  "row n = [''SUB_REDDIT'' \<mapsto> AttrS n, ''SUBSCRIBERS'' \<mapsto> AttrN ''1'']"

section \<open>Splitting and quoting strings\<close>

text \<open>
  The split never returns the empty list, cuts exactly at the separators, and is undone by
  joining the pieces with the separator.
\<close>

lemma String_split_not_Nil: "String_split sep s \<noteq> []"
  by (induction s) (auto split: list.splits)

lemma String_split_no_sep: "sep \<notin> set t \<Longrightarrow> String_split sep t = [t]"
  by (induction t) auto

lemma String_split_token:
  "sep \<notin> set t \<Longrightarrow> String_split sep (t @ sep # rest) = t # String_split sep rest"
  by (induction t) auto

lemma String_split_length: "length (String_split sep s) = Suc (count_list s sep)"
  by (induction s) (auto split: list.splits simp: String_split_not_Nil)

lemma String_split_no_sep_inside: "t \<in> set (String_split sep s) \<Longrightarrow> sep \<notin> set t"
  by (induction s arbitrary: t) (auto split: if_splits list.splits)

lemma Array_join_Cons:
  "ys \<noteq> [] \<Longrightarrow> Array_join sep (x # ys) = x @ sep @ Array_join sep ys"
  by (cases ys) auto

lemma String_split_join: "Array_join [sep] (String_split sep s) = s"
proof (induction s)
  case Nil
  show ?case by simp
next
  case (Cons c cs)
  show ?case
  proof (cases "c = sep")
    case True
    then show ?thesis
      using Cons.IH by (simp add: Array_join_Cons String_split_not_Nil)
  next
    case False
    obtain t ts where split: "String_split sep cs = t # ts"
      using String_split_not_Nil [of sep cs] by (cases "String_split sep cs") auto
    show ?thesis
      using False Cons.IH split by (cases ts) auto
  qed
qed

lemma String_split_append:
  "String_split sep (xs @ sep # rest) = String_split sep xs @ String_split sep rest"
proof (induction xs)
  case Nil
  show ?case by simp
next
  case (Cons c xs)
  obtain t ts where "String_split sep xs = t # ts"
    using String_split_not_Nil [of sep xs] by (cases "String_split sep xs") auto
  with Cons show ?case by simp
qed

lemma JSON_stringify_name_type:
  "JSON_stringify [(''name'', Some n), (''type'', Some ''subreddit'')] =
     ''{'' @ [CHR 0x22] @ ''name'' @ [CHR 0x22] @ '':'' @ QuoteJSONString n @ '','' @
     [CHR 0x22] @ ''type'' @ [CHR 0x22] @ '':'' @ [CHR 0x22] @ ''subreddit'' @ [CHR 0x22] @ ''}''"
  by (simp add: JSON_stringify_def SerializeJSONProperty_def QuoteJSONString_def
      QuoteJSONChar_def List.map_filter_def)

section \<open>The publishing loop\<close>

text \<open>
  The loop over a concatenation is the loop over the first part, then, if that returned, the
  loop over the second from the world the first left. A loop that returns has made the call of
  every identifier.
\<close>

lemma publishSubReddits_append:
  "publishSubReddits a e (xs @ ys) w =
     (case publishSubReddits a e xs w of
        (Inl err, w') \<Rightarrow> (Inl err, w')
      | (Inr u, w') \<Rightarrow> publishSubReddits a e ys w')"
  by (induction xs arbitrary: w) (auto split: prod.splits sum.splits)

lemma publishSubReddits_returns_calls:
  "publishSubReddits a e xs w = (Inr u, w') \<Longrightarrow>
   calls w' = calls w @ map (\<lambda>x. PutEventsCall (putEvents_params e x)) xs"
  by (induction xs arbitrary: w) (auto split: prod.splits sum.splits)

lemma publishSubReddits_never_rejected:
  assumes "\<forall>s r. \<exists>response s'. putEvents a s r = (Inr response, s')"
  shows "\<exists>w'. publishSubReddits a e xs w = (Inr (), w')"
proof (induction xs arbitrary: w)
  case Nil
  show ?case by simp
next
  case (Cons x xs)
  obtain response s' where "putEvents a (service w) (putEvents_params e x) = (Inr response, s')"
    using assms by blast
  then show ?case using Cons.IH by simp
qed

lemma publishSubReddits_rejected_at:
  assumes "publishSubReddits a e pre w = (Inr u, w1)"
    and "fst (putEvents a (service w1) (putEvents_params e x)) = Inl err"
  shows "fst (publishSubReddits a e (pre @ x # post) w) = Inl err"
    and "calls (snd (publishSubReddits a e (pre @ x # post) w)) =
           calls w @ map (\<lambda>x. PutEventsCall (putEvents_params e x)) (pre @ [x])"
  using assms publishSubReddits_returns_calls [OF assms(1)]
  by (auto simp: publishSubReddits_append split: prod.splits sum.splits)

lemma handler_env_ok:
  "checkEnvSetup e = Inr () \<Longrightarrow>
   handler aws e w =
     (case getSubRedditList aws e w of
        (Inl err, w') \<Rightarrow> (Inl err, w')
      | (Inr subreddits, w') \<Rightarrow> publishSubReddits aws e subreddits w')"
  by (simp add: handler_def)

section \<open>The projection of the scanned rows\<close>

text \<open>
  The projection returns a list exactly when every row has the \<open>SUB_REDDIT\<close> attribute; one
  row without it makes the whole projection throw.
\<close>

lemma Items_map_all_present:
  "\<forall>item \<in> set items. item ''SUB_REDDIT'' \<noteq> None \<Longrightarrow>
   Items_map items = Inr (map (\<lambda>item. Option.bind (item ''SUB_REDDIT'') attr_S) items)"
  by (induction items) (auto split: option.splits)

lemma Items_map_missing:
  "item \<in> set items \<Longrightarrow> item ''SUB_REDDIT'' = None \<Longrightarrow> Items_map items = Inl TypeError"
proof (induction items)
  case Nil
  then show ?case by simp
next
  case (Cons i items)
  show ?case
  proof (cases "i ''SUB_REDDIT''")
    case None
    then show ?thesis by simp
  next
    case (Some a)
    with Cons have "Items_map items = Inl TypeError" by auto
    with Some show ?thesis by simp
  qed
qed

lemma Items_map_strings:
  "map (\<lambda>item. item ''SUB_REDDIT'') items = map (\<lambda>n. Some (AttrS n)) names \<Longrightarrow>
   Items_map items = Inr (map Some names)"
  by (induction items arbitrary: names) (auto split: option.splits)

section \<open>The two sources of the list\<close>

text \<open>What \<open>getSubRedditList\<close> returns and calls in each branch of its first test.\<close>

lemma getSubRedditList_table:
  "READ_SUBREDDITS_FROM_DDB e = Some ''TRUE'' \<Longrightarrow>
   fst (getSubRedditList aws e w) =
     (case fst (scan aws (service w) \<lparr>TableName = SOURCE_DDB_TABLE e\<rparr>) of
        Inl ddbError \<Rightarrow> Inl ddbError
      | Inr ddbResponse \<Rightarrow> Items_map (Items ddbResponse)) \<and>
   calls (snd (getSubRedditList aws e w)) = calls w @ [ScanCall \<lparr>TableName = SOURCE_DDB_TABLE e\<rparr>] \<and>
   service (snd (getSubRedditList aws e w)) = snd (scan aws (service w) \<lparr>TableName = SOURCE_DDB_TABLE e\<rparr>)"
  by (simp add: getSubRedditList_def split: prod.splits sum.splits)

lemma getSubRedditList_static:
  "READ_SUBREDDITS_FROM_DDB e \<noteq> Some ''TRUE'' \<Longrightarrow>
   fst (getSubRedditList aws e w) =
     (case SUBREDDITS_TO_FOLLOW e of
        None \<Rightarrow> Inl (Error no_source_message)
      | Some s \<Rightarrow> if s = [] then Inl (Error no_source_message)
                  else Inr (map Some (String_split CHR '','' s))) \<and>
   calls (snd (getSubRedditList aws e w)) = calls w \<and>
   service (snd (getSubRedditList aws e w)) = service w"
  by (simp add: getSubRedditList_def truthy_def split: option.splits)

section \<open>Properties of the handler\<close>

text \<open>
  C1. For every identifier list, when every \<open>putEvents\<close> call is answered with a failed-entry
  count of zero, the publisher returns normally and has made exactly one call per identifier,
  in list order: each call carries a single entry whose bus is \<open>EVENT_BUS_NAME\<close>, whose
  detail type is \<open>subreddit\<close>, whose source is \<open>SUBREDDIT_PUBLISH_NAMESPACE\<close> and whose
  detail is \<open>JSON.stringify({ name: identifier, type: 'subreddit' })\<close>.
\<close>

theorem publish_all_accepted:
  assumes "\<forall>s r. \<exists>s'. putEvents eventBridge s r = (Inr \<lparr>FailedEntryCount = 0\<rparr>, s')"
  shows "fst (publishSubReddits eventBridge e subreddits w) = Inr () \<and>
         calls (snd (publishSubReddits eventBridge e subreddits w)) =
           calls w @
           map (\<lambda>subreddit. PutEventsCall
                 \<lparr>Entries =
                    [\<lparr>EventBusName = EVENT_BUS_NAME e,
                      DetailType = ''subreddit'',
                      Source = SUBREDDIT_PUBLISH_NAMESPACE e,
                      Detail = JSON_stringify
                        [(''name'', subreddit), (''type'', Some ''subreddit'')]\<rparr>]\<rparr>)
               subreddits \<and>
         length (calls (snd (publishSubReddits eventBridge e subreddits w))) =
           length (calls w) + length subreddits"
proof -
  from assms have "\<forall>s r. \<exists>response s'. putEvents eventBridge s r = (Inr response, s')"
    by blast
  then obtain w' where run: "publishSubReddits eventBridge e subreddits w = (Inr (), w')"
    using publishSubReddits_never_rejected by blast
  from publishSubReddits_returns_calls [OF run]
  have "calls w' = calls w @ map (\<lambda>x. PutEventsCall (putEvents_params e x)) subreddits" .
  with run show ?thesis
    by (simp add: putEvents_params_def)
qed

theorem publish_all_accepted_witness:
  "(\<forall>s r. \<exists>s'. putEvents (counting_aws (Inr \<lparr>Items = []\<rparr>) (\<lambda>n. Inr \<lparr>FailedEntryCount = 0\<rparr>)) s r
       = (Inr \<lparr>FailedEntryCount = 0\<rparr>, s')) \<and>
   fst (publishSubReddits (counting_aws (Inr \<lparr>Items = []\<rparr>) (\<lambda>n. Inr \<lparr>FailedEntryCount = 0\<rparr>))
         (static_env ''sub1,sub2'') [Some ''sub1'', Some ''sub2''] start) = Inr () \<and>
   calls (snd (publishSubReddits (counting_aws (Inr \<lparr>Items = []\<rparr>) (\<lambda>n. Inr \<lparr>FailedEntryCount = 0\<rparr>))
         (static_env ''sub1,sub2'') [Some ''sub1'', Some ''sub2''] start)) =
     [PutEventsCall \<lparr>Entries = [\<lparr>EventBusName = Some ''bus1'', DetailType = ''subreddit'',
        Source = Some ''ns1'',
        Detail = ''{'' @ [CHR 0x22] @ ''name'' @ [CHR 0x22] @ '':'' @ [CHR 0x22] @ ''sub1'' @
          [CHR 0x22] @ '','' @ [CHR 0x22] @ ''type'' @ [CHR 0x22] @ '':'' @ [CHR 0x22] @
          ''subreddit'' @ [CHR 0x22] @ ''}''\<rparr>]\<rparr>,
      PutEventsCall \<lparr>Entries = [\<lparr>EventBusName = Some ''bus1'', DetailType = ''subreddit'',
        Source = Some ''ns1'',
        Detail = ''{'' @ [CHR 0x22] @ ''name'' @ [CHR 0x22] @ '':'' @ [CHR 0x22] @ ''sub2'' @
          [CHR 0x22] @ '','' @ [CHR 0x22] @ ''type'' @ [CHR 0x22] @ '':'' @ [CHR 0x22] @
          ''subreddit'' @ [CHR 0x22] @ ''}''\<rparr>]\<rparr>]"
proof -
  have h: "\<forall>s r. \<exists>s'. putEvents (counting_aws (Inr \<lparr>Items = []\<rparr>) (\<lambda>n. Inr \<lparr>FailedEntryCount = 0\<rparr>)) s r
       = (Inr \<lparr>FailedEntryCount = 0\<rparr>, s')"
    by (simp add: counting_aws_def)
  show ?thesis
    using h publish_all_accepted [OF h, of "static_env ''sub1,sub2''" "[Some ''sub1'', Some ''sub2'']" start]
    by (simp add: static_env_def start_def JSON_stringify_def SerializeJSONProperty_def
        QuoteJSONString_def QuoteJSONChar_def List.map_filter_def)
qed

text \<open>
  C2. If the call for item \<open>k\<close> (counted from 1) is rejected, the calls for the items
  \<open>1..k\<close> have been made, in order, none is made for the items after \<open>k\<close>, and the
  publisher throws the error the call was rejected with; an invocation that reached the loop
  fails with that error. That the call for item \<open>k\<close> is made at all means the calls
  before it returned: \<open>w1\<close> is the world they leave.
\<close>

theorem transport_error_aborts:
  assumes "1 \<le> k" and "k \<le> length subreddits"
    and "publishSubReddits eventBridge e (take (k - 1) subreddits) w = (Inr (), w1)"
    and "fst (putEvents eventBridge (service w1) (putEvents_params e (subreddits ! (k - 1)))) = Inl err"
  shows "fst (publishSubReddits eventBridge e subreddits w) = Inl err \<and>
         calls (snd (publishSubReddits eventBridge e subreddits w)) =
           calls w @ map (\<lambda>subreddit. PutEventsCall (putEvents_params e subreddit)) (take k subreddits) \<and>
         (checkEnvSetup e = Inr () \<and> getSubRedditList eventBridge e w0 = (Inr subreddits, w) \<longrightarrow>
            fst (handler eventBridge e w0) = Inl err \<and>
            calls (snd (handler eventBridge e w0)) =
              calls w @ map (\<lambda>subreddit. PutEventsCall (putEvents_params e subreddit)) (take k subreddits))"
proof -
  from assms(1,2) have "k - 1 < length subreddits" by arith
  then have "subreddits = take (k - 1) subreddits @ subreddits ! (k - 1) # drop (Suc (k - 1)) subreddits"
    by (rule id_take_nth_drop)
  with assms(1) have split:
    "subreddits = take (k - 1) subreddits @ subreddits ! (k - 1) # drop k subreddits"
    by simp
  from assms(1,2) have front: "take (k - 1) subreddits @ [subreddits ! (k - 1)] = take k subreddits"
    using take_Suc_conv_app_nth [of "k - 1" subreddits] by simp
  have "fst (publishSubReddits eventBridge e
              (take (k - 1) subreddits @ subreddits ! (k - 1) # drop k subreddits) w) = Inl err"
    by (rule publishSubReddits_rejected_at(1) [OF assms(3,4)])
  moreover have "calls (snd (publishSubReddits eventBridge e
              (take (k - 1) subreddits @ subreddits ! (k - 1) # drop k subreddits) w)) =
           calls w @ map (\<lambda>x. PutEventsCall (putEvents_params e x))
             (take (k - 1) subreddits @ [subreddits ! (k - 1)])"
    by (rule publishSubReddits_rejected_at(2) [OF assms(3,4)])
  ultimately have loop: "fst (publishSubReddits eventBridge e subreddits w) = Inl err \<and>
         calls (snd (publishSubReddits eventBridge e subreddits w)) =
           calls w @ map (\<lambda>subreddit. PutEventsCall (putEvents_params e subreddit)) (take k subreddits)"
    using split front by metis
  then show ?thesis
    by (simp add: handler_env_ok)
qed

theorem transport_error_aborts_witness:
  "(1::nat) \<le> 2 \<and> 2 \<le> length [Some ''a'', Some ''b'', Some ''c''] \<and>
   publishSubReddits
     (counting_aws (Inr \<lparr>Items = []\<rparr>)
        (\<lambda>n. if n = 1 then Inl (ServiceError ''ThrottlingException'') else Inr \<lparr>FailedEntryCount = 0\<rparr>))
     (static_env ''a,b,c'') (take (2 - 1) [Some ''a'', Some ''b'', Some ''c''])
     (start\<lparr>console := [DebugPublishingFollowing [''a'', ''b'', ''c'']]\<rparr>) =
     (Inr (),
      \<lparr>service = 1,
       calls = [PutEventsCall (putEvents_params (static_env ''a,b,c'') (Some ''a''))],
       console = [DebugPublishingFollowing [''a'', ''b'', ''c''],
                  DebugPublishResponse \<lparr>FailedEntryCount = 0\<rparr>]\<rparr>) \<and>
   fst (putEvents
     (counting_aws (Inr \<lparr>Items = []\<rparr>)
        (\<lambda>n. if n = 1 then Inl (ServiceError ''ThrottlingException'') else Inr \<lparr>FailedEntryCount = 0\<rparr>))
     1 (putEvents_params (static_env ''a,b,c'') (Some ''b''))) =
     Inl (ServiceError ''ThrottlingException'') \<and>
   checkEnvSetup (static_env ''a,b,c'') = Inr () \<and>
   getSubRedditList
     (counting_aws (Inr \<lparr>Items = []\<rparr>)
        (\<lambda>n. if n = 1 then Inl (ServiceError ''ThrottlingException'') else Inr \<lparr>FailedEntryCount = 0\<rparr>))
     (static_env ''a,b,c'') start =
     (Inr [Some ''a'', Some ''b'', Some ''c''],
      start\<lparr>console := [DebugPublishingFollowing [''a'', ''b'', ''c'']]\<rparr>) \<and>
   fst (handler
     (counting_aws (Inr \<lparr>Items = []\<rparr>)
        (\<lambda>n. if n = 1 then Inl (ServiceError ''ThrottlingException'') else Inr \<lparr>FailedEntryCount = 0\<rparr>))
     (static_env ''a,b,c'') start) =
     Inl (ServiceError ''ThrottlingException'') \<and>
   calls (snd (handler
     (counting_aws (Inr \<lparr>Items = []\<rparr>)
        (\<lambda>n. if n = 1 then Inl (ServiceError ''ThrottlingException'') else Inr \<lparr>FailedEntryCount = 0\<rparr>))
     (static_env ''a,b,c'') start)) =
     [PutEventsCall (putEvents_params (static_env ''a,b,c'') (Some ''a'')),
      PutEventsCall (putEvents_params (static_env ''a,b,c'') (Some ''b''))]"
proof -
  let ?bus = "counting_aws (Inr \<lparr>Items = []\<rparr>)
        (\<lambda>n. if n = 1 then Inl (ServiceError ''ThrottlingException'') else Inr \<lparr>FailedEntryCount = 0\<rparr>)"
  let ?w = "start\<lparr>console := [DebugPublishingFollowing [''a'', ''b'', ''c'']]\<rparr>"
  let ?w1 = "\<lparr>service = 1::nat,
       calls = [PutEventsCall (putEvents_params (static_env ''a,b,c'') (Some ''a''))],
       console = [DebugPublishingFollowing [''a'', ''b'', ''c''],
                  DebugPublishResponse \<lparr>FailedEntryCount = 0\<rparr>]\<rparr>"
  have h1: "(1::nat) \<le> 2" by simp
  have h2: "2 \<le> length [Some ''a'', Some ''b'', Some ''c'']" by simp
  have h3: "publishSubReddits ?bus (static_env ''a,b,c'')
      (take (2 - 1) [Some ''a'', Some ''b'', Some ''c'']) ?w = (Inr (), ?w1)"
    by (simp add: counting_aws_def start_def)
  have h4: "fst (putEvents ?bus (service ?w1)
      (putEvents_params (static_env ''a,b,c'') ([Some ''a'', Some ''b'', Some ''c''] ! (2 - 1)))) =
      Inl (ServiceError ''ThrottlingException'')"
    by (simp add: counting_aws_def)
  have h4': "fst (putEvents ?bus 1 (putEvents_params (static_env ''a,b,c'') (Some ''b''))) =
      Inl (ServiceError ''ThrottlingException'')"
    by (simp add: counting_aws_def)
  have h5: "checkEnvSetup (static_env ''a,b,c'') = Inr ()"
    by (simp add: checkEnvSetup_def static_env_def truthy_def)
  have h6: "getSubRedditList ?bus (static_env ''a,b,c'') start =
      (Inr [Some ''a'', Some ''b'', Some ''c''], ?w)"
    by (simp add: getSubRedditList_def static_env_def truthy_def start_def)
  have r: "fst (handler ?bus (static_env ''a,b,c'') start) =
      Inl (ServiceError ''ThrottlingException'') \<and>
    calls (snd (handler ?bus (static_env ''a,b,c'') start)) =
      [PutEventsCall (putEvents_params (static_env ''a,b,c'') (Some ''a'')),
       PutEventsCall (putEvents_params (static_env ''a,b,c'') (Some ''b''))]"
    using h5 h6 transport_error_aborts [OF h1 h2 h3 h4, of start]
    by (simp add: start_def del: publishSubReddits.simps)
  show ?thesis
    by (intro conjI h1 h2 h3 h4' h5 h6 conjunct1 [OF r] conjunct2 [OF r])
qed

text \<open>
  C3. If no \<open>putEvents\<close> call is rejected, whatever failed-entry counts the responses
  carry, the publisher makes the call of every identifier, once and in order, and returns
  normally; an invocation that reaches the loop then returns normally too.
\<close>

theorem rejected_entries_continue:
  assumes "\<forall>s r. \<exists>response s'. putEvents aws s r = (Inr response, s')"
  shows "fst (publishSubReddits aws e subreddits w) = Inr () \<and>
         calls (snd (publishSubReddits aws e subreddits w)) =
           calls w @ map (\<lambda>subreddit. PutEventsCall (putEvents_params e subreddit)) subreddits \<and>
         (checkEnvSetup e = Inr () \<and> getSubRedditList aws e w0 = (Inr subreddits, w) \<longrightarrow>
            fst (handler aws e w0) = Inr () \<and>
            calls (snd (handler aws e w0)) =
              calls w @ map (\<lambda>subreddit. PutEventsCall (putEvents_params e subreddit)) subreddits)"
proof -
  obtain w' where run: "publishSubReddits aws e subreddits w = (Inr (), w')"
    using publishSubReddits_never_rejected [OF assms] by blast
  have c: "calls w' = calls w @ map (\<lambda>x. PutEventsCall (putEvents_params e x)) subreddits"
    by (rule publishSubReddits_returns_calls [OF run])
  show ?thesis
    using run c by (auto simp: handler_env_ok)
qed

theorem rejected_entries_continue_witness:
  "(\<forall>s r. \<exists>response s'.
      putEvents (counting_aws (Inr \<lparr>Items = []\<rparr>)
        (\<lambda>n. Inr \<lparr>FailedEntryCount = (if n = 1 then 1 else 0)\<rparr>)) s r = (Inr response, s')) \<and>
   publishSubReddits (counting_aws (Inr \<lparr>Items = []\<rparr>)
        (\<lambda>n. Inr \<lparr>FailedEntryCount = (if n = 1 then 1 else 0)\<rparr>))
     (static_env ''a,b,c'') [Some ''a'', Some ''b'', Some ''c''] start =
     (Inr (),
      \<lparr>service = 3,
       calls = [PutEventsCall (putEvents_params (static_env ''a,b,c'') (Some ''a'')),
                PutEventsCall (putEvents_params (static_env ''a,b,c'') (Some ''b'')),
                PutEventsCall (putEvents_params (static_env ''a,b,c'') (Some ''c''))],
       console = [DebugPublishResponse \<lparr>FailedEntryCount = 0\<rparr>,
                  DebugPublishResponse \<lparr>FailedEntryCount = 1\<rparr>,
                  ErrorFailedToPublish (Some ''b''),
                  DebugPublishResponse \<lparr>FailedEntryCount = 0\<rparr>]\<rparr>) \<and>
   fst (handler (counting_aws (Inr \<lparr>Items = []\<rparr>)
        (\<lambda>n. Inr \<lparr>FailedEntryCount = (if n = 1 then 1 else 0)\<rparr>))
     (static_env ''a,b,c'') start) = Inr ()"
proof -
  let ?bus = "counting_aws (Inr \<lparr>Items = []\<rparr>)
        (\<lambda>n. Inr \<lparr>FailedEntryCount = (if n = 1 then 1 else 0)\<rparr>)"
  let ?w = "start\<lparr>console := [DebugPublishingFollowing [''a'', ''b'', ''c'']]\<rparr>"
  have h: "\<forall>s r. \<exists>response s'. putEvents ?bus s r = (Inr response, s')"
    by (simp add: counting_aws_def)
  have env: "checkEnvSetup (static_env ''a,b,c'') = Inr ()"
    by (simp add: checkEnvSetup_def static_env_def truthy_def)
  have list: "getSubRedditList ?bus (static_env ''a,b,c'') start =
      (Inr [Some ''a'', Some ''b'', Some ''c''], ?w)"
    by (simp add: getSubRedditList_def static_env_def truthy_def start_def)
  have run: "publishSubReddits ?bus (static_env ''a,b,c'') [Some ''a'', Some ''b'', Some ''c''] start =
     (Inr (),
      \<lparr>service = 3,
       calls = [PutEventsCall (putEvents_params (static_env ''a,b,c'') (Some ''a'')),
                PutEventsCall (putEvents_params (static_env ''a,b,c'') (Some ''b'')),
                PutEventsCall (putEvents_params (static_env ''a,b,c'') (Some ''c''))],
       console = [DebugPublishResponse \<lparr>FailedEntryCount = 0\<rparr>,
                  DebugPublishResponse \<lparr>FailedEntryCount = 1\<rparr>,
                  ErrorFailedToPublish (Some ''b''),
                  DebugPublishResponse \<lparr>FailedEntryCount = 0\<rparr>]\<rparr>)"
    by (simp add: counting_aws_def start_def numeral_3_eq_3)
  show ?thesis
    using h run env list
      rejected_entries_continue [OF h, of "static_env ''a,b,c''" "[Some ''a'', Some ''b'', Some ''c'']" ?w start]
    by simp
qed

text \<open>
  C4. If one of \<open>EVENT_BUS_NAME\<close>, \<open>SUBREDDIT_PUBLISH_NAMESPACE\<close> and
  \<open>SOURCE_DDB_TABLE\<close> is missing or empty, the invocation throws the configuration error
  and leaves the world as it was: no scan and no \<open>putEvents\<close> call is made.
\<close>

theorem missing_configuration_no_calls:
  assumes "EVENT_BUS_NAME e = None \<or> EVENT_BUS_NAME e = Some [] \<or>
           SUBREDDIT_PUBLISH_NAMESPACE e = None \<or> SUBREDDIT_PUBLISH_NAMESPACE e = Some [] \<or>
           SOURCE_DDB_TABLE e = None \<or> SOURCE_DDB_TABLE e = Some []"
  shows "checkEnvSetup e = Inl (Error env_not_set_message) \<and>
         handler aws e w = (Inl (Error env_not_set_message), w) \<and>
         calls (snd (handler aws e w)) = calls w \<and>
         service (snd (handler aws e w)) = service w"
  using assms by (auto simp: handler_def checkEnvSetup_def truthy_def)

theorem missing_configuration_no_calls_witness:
  "(EVENT_BUS_NAME (table_env\<lparr>SOURCE_DDB_TABLE := None\<rparr>) = None \<or>
    EVENT_BUS_NAME (table_env\<lparr>SOURCE_DDB_TABLE := None\<rparr>) = Some [] \<or>
    SUBREDDIT_PUBLISH_NAMESPACE (table_env\<lparr>SOURCE_DDB_TABLE := None\<rparr>) = None \<or>
    SUBREDDIT_PUBLISH_NAMESPACE (table_env\<lparr>SOURCE_DDB_TABLE := None\<rparr>) = Some [] \<or>
    SOURCE_DDB_TABLE (table_env\<lparr>SOURCE_DDB_TABLE := None\<rparr>) = None \<or>
    SOURCE_DDB_TABLE (table_env\<lparr>SOURCE_DDB_TABLE := None\<rparr>) = Some []) \<and>
   handler (counting_aws (Inr \<lparr>Items = []\<rparr>) (\<lambda>n. Inr \<lparr>FailedEntryCount = 0\<rparr>))
     (table_env\<lparr>SOURCE_DDB_TABLE := None\<rparr>) start =
     (Inl (Error env_not_set_message), start) \<and>
   calls (snd (handler (counting_aws (Inr \<lparr>Items = []\<rparr>) (\<lambda>n. Inr \<lparr>FailedEntryCount = 0\<rparr>))
     (table_env\<lparr>SOURCE_DDB_TABLE := None\<rparr>) start)) = []"
proof -
  have h: "EVENT_BUS_NAME (table_env\<lparr>SOURCE_DDB_TABLE := None\<rparr>) = None \<or>
    EVENT_BUS_NAME (table_env\<lparr>SOURCE_DDB_TABLE := None\<rparr>) = Some [] \<or>
    SUBREDDIT_PUBLISH_NAMESPACE (table_env\<lparr>SOURCE_DDB_TABLE := None\<rparr>) = None \<or>
    SUBREDDIT_PUBLISH_NAMESPACE (table_env\<lparr>SOURCE_DDB_TABLE := None\<rparr>) = Some [] \<or>
    SOURCE_DDB_TABLE (table_env\<lparr>SOURCE_DDB_TABLE := None\<rparr>) = None \<or>
    SOURCE_DDB_TABLE (table_env\<lparr>SOURCE_DDB_TABLE := None\<rparr>) = Some []"
    by simp
  show ?thesis
    using h missing_configuration_no_calls [OF h,
        of "counting_aws (Inr \<lparr>Items = []\<rparr>) (\<lambda>n. Inr \<lparr>FailedEntryCount = 0\<rparr>)" start]
    by (simp add: start_def)
qed

text \<open>
  C5. The source of the list is chosen by the switch alone. The switch is on exactly when
  \<open>READ_SUBREDDITS_FROM_DDB\<close> is the string \<open>TRUE\<close>: then the list is what the scan of
  \<open>SOURCE_DDB_TABLE\<close> gives, one scan call is made, and the static list is not read. In every
  other case, the variable absent included, the list is read from \<open>SUBREDDITS_TO_FOLLOW\<close> and
  no service is called.
\<close>

theorem strategy_selected_by_switch:
  "(READ_SUBREDDITS_FROM_DDB e = Some ''TRUE'' \<longrightarrow>
      fst (getSubRedditList aws e w) =
        (case fst (scan aws (service w) \<lparr>TableName = SOURCE_DDB_TABLE e\<rparr>) of
           Inl ddbError \<Rightarrow> Inl ddbError
         | Inr ddbResponse \<Rightarrow> Items_map (Items ddbResponse)) \<and>
      calls (snd (getSubRedditList aws e w)) =
        calls w @ [ScanCall \<lparr>TableName = SOURCE_DDB_TABLE e\<rparr>] \<and>
      getSubRedditList aws (e\<lparr>SUBREDDITS_TO_FOLLOW := other\<rparr>) w = getSubRedditList aws e w) \<and>
   (READ_SUBREDDITS_FROM_DDB e \<noteq> Some ''TRUE'' \<longrightarrow>
      fst (getSubRedditList aws e w) =
        (case SUBREDDITS_TO_FOLLOW e of
           None \<Rightarrow> Inl (Error no_source_message)
         | Some s \<Rightarrow> if s = [] then Inl (Error no_source_message)
                     else Inr (map Some (String_split CHR '','' s))) \<and>
      calls (snd (getSubRedditList aws e w)) = calls w \<and>
      service (snd (getSubRedditList aws e w)) = service w)"
proof (intro conjI impI)
  assume t: "READ_SUBREDDITS_FROM_DDB e = Some ''TRUE''"
  show "fst (getSubRedditList aws e w) =
        (case fst (scan aws (service w) \<lparr>TableName = SOURCE_DDB_TABLE e\<rparr>) of
           Inl ddbError \<Rightarrow> Inl ddbError
         | Inr ddbResponse \<Rightarrow> Items_map (Items ddbResponse))"
    using getSubRedditList_table [OF t] by blast
  show "calls (snd (getSubRedditList aws e w)) =
        calls w @ [ScanCall \<lparr>TableName = SOURCE_DDB_TABLE e\<rparr>]"
    using getSubRedditList_table [OF t] by blast
  show "getSubRedditList aws (e\<lparr>SUBREDDITS_TO_FOLLOW := other\<rparr>) w = getSubRedditList aws e w"
    using t by (simp add: getSubRedditList_def split: prod.splits sum.splits)
next
  assume f: "READ_SUBREDDITS_FROM_DDB e \<noteq> Some ''TRUE''"
  show "fst (getSubRedditList aws e w) =
        (case SUBREDDITS_TO_FOLLOW e of
           None \<Rightarrow> Inl (Error no_source_message)
         | Some s \<Rightarrow> if s = [] then Inl (Error no_source_message)
                     else Inr (map Some (String_split CHR '','' s)))"
    using getSubRedditList_static [OF f] by blast
  show "calls (snd (getSubRedditList aws e w)) = calls w"
    using getSubRedditList_static [OF f] by blast
  show "service (snd (getSubRedditList aws e w)) = service w"
    using getSubRedditList_static [OF f] by blast
qed

theorem strategy_selected_by_switch_witness:
  "READ_SUBREDDITS_FROM_DDB (table_env\<lparr>SUBREDDITS_TO_FOLLOW := Some ''x,y''\<rparr>) = Some ''TRUE'' \<and>
   fst (getSubRedditList
         (counting_aws (Inr \<lparr>Items = [row ''b'', row ''a'']\<rparr>) (\<lambda>n. Inr \<lparr>FailedEntryCount = 0\<rparr>))
         (table_env\<lparr>SUBREDDITS_TO_FOLLOW := Some ''x,y''\<rparr>) start) = Inr [Some ''b'', Some ''a''] \<and>
   calls (snd (getSubRedditList
         (counting_aws (Inr \<lparr>Items = [row ''b'', row ''a'']\<rparr>) (\<lambda>n. Inr \<lparr>FailedEntryCount = 0\<rparr>))
         (table_env\<lparr>SUBREDDITS_TO_FOLLOW := Some ''x,y''\<rparr>) start)) = [ScanCall \<lparr>TableName = Some ''t1''\<rparr>] \<and>
   READ_SUBREDDITS_FROM_DDB (static_env ''sub1,sub2'') \<noteq> Some ''TRUE'' \<and>
   fst (getSubRedditList
         (counting_aws (Inr \<lparr>Items = [row ''b'', row ''a'']\<rparr>) (\<lambda>n. Inr \<lparr>FailedEntryCount = 0\<rparr>))
         (static_env ''sub1,sub2'') start) = Inr [Some ''sub1'', Some ''sub2''] \<and>
   calls (snd (getSubRedditList
         (counting_aws (Inr \<lparr>Items = [row ''b'', row ''a'']\<rparr>) (\<lambda>n. Inr \<lparr>FailedEntryCount = 0\<rparr>))
         (static_env ''sub1,sub2'') start)) = []"
proof -
  let ?aws = "counting_aws (Inr \<lparr>Items = [row ''b'', row ''a'']\<rparr>) (\<lambda>n. Inr \<lparr>FailedEntryCount = 0\<rparr>)"
  have on: "READ_SUBREDDITS_FROM_DDB (table_env\<lparr>SUBREDDITS_TO_FOLLOW := Some ''x,y''\<rparr>) = Some ''TRUE''"
    by (simp add: table_env_def)
  have off: "READ_SUBREDDITS_FROM_DDB (static_env ''sub1,sub2'') \<noteq> Some ''TRUE''"
    by (simp add: static_env_def)
  have t: "fst (getSubRedditList ?aws (table_env\<lparr>SUBREDDITS_TO_FOLLOW := Some ''x,y''\<rparr>) start) =
             Inr [Some ''b'', Some ''a''] \<and>
           calls (snd (getSubRedditList ?aws (table_env\<lparr>SUBREDDITS_TO_FOLLOW := Some ''x,y''\<rparr>) start)) =
             [ScanCall \<lparr>TableName = Some ''t1''\<rparr>]"
    using on strategy_selected_by_switch
      [of "table_env\<lparr>SUBREDDITS_TO_FOLLOW := Some ''x,y''\<rparr>" ?aws start None]
    by (simp add: counting_aws_def start_def row_def table_env_def)
  have s: "fst (getSubRedditList ?aws (static_env ''sub1,sub2'') start) =
             Inr [Some ''sub1'', Some ''sub2''] \<and>
           calls (snd (getSubRedditList ?aws (static_env ''sub1,sub2'') start)) = []"
    using off strategy_selected_by_switch [of "static_env ''sub1,sub2''" ?aws start None]
    by (simp add: start_def static_env_def)
  show ?thesis
    using on off t s by blast
qed

text \<open>
  C6. With the switch on and a scan that returns, over rows that each hold a string in
  \<open>SUB_REDDIT\<close>, the list is the sequence of these strings in the order of the rows: as many
  entries as rows, nothing dropped, merged or moved.
\<close>

theorem table_list_is_projection:
  assumes "READ_SUBREDDITS_FROM_DDB e = Some ''TRUE''"
    and "scan ddb (service w) \<lparr>TableName = SOURCE_DDB_TABLE e\<rparr> = (Inr ddbResponse, s')"
    and "map (\<lambda>item. item ''SUB_REDDIT'') (Items ddbResponse) = map (\<lambda>name. Some (AttrS name)) names"
  shows "fst (getSubRedditList ddb e w) = Inr (map Some names) \<and>
         length names = length (Items ddbResponse)"
proof -
  have "Items_map (Items ddbResponse) = Inr (map Some names)"
    by (rule Items_map_strings [OF assms(3)])
  moreover have "length names = length (Items ddbResponse)"
    using arg_cong [OF assms(3), of length] by simp
  ultimately show ?thesis
    using assms(1,2) by (simp add: getSubRedditList_def)
qed

theorem table_list_is_projection_witness:
  "READ_SUBREDDITS_FROM_DDB table_env = Some ''TRUE'' \<and>
   scan (counting_aws (Inr \<lparr>Items = [row ''b'', row ''a'', row ''b'']\<rparr>) (\<lambda>n. Inr \<lparr>FailedEntryCount = 0\<rparr>))
     (service start) \<lparr>TableName = SOURCE_DDB_TABLE table_env\<rparr> =
     (Inr \<lparr>Items = [row ''b'', row ''a'', row ''b'']\<rparr>, 1) \<and>
   map (\<lambda>item. item ''SUB_REDDIT'') (Items \<lparr>Items = [row ''b'', row ''a'', row ''b'']\<rparr>) =
     map (\<lambda>name. Some (AttrS name)) [''b'', ''a'', ''b''] \<and>
   fst (getSubRedditList
     (counting_aws (Inr \<lparr>Items = [row ''b'', row ''a'', row ''b'']\<rparr>) (\<lambda>n. Inr \<lparr>FailedEntryCount = 0\<rparr>))
     table_env start) = Inr [Some ''b'', Some ''a'', Some ''b'']"
proof -
  let ?ddb = "counting_aws (Inr \<lparr>Items = [row ''b'', row ''a'', row ''b'']\<rparr>) (\<lambda>n. Inr \<lparr>FailedEntryCount = 0\<rparr>)"
  have h1: "READ_SUBREDDITS_FROM_DDB table_env = Some ''TRUE''"
    by (simp add: table_env_def)
  have h2: "scan ?ddb (service start) \<lparr>TableName = SOURCE_DDB_TABLE table_env\<rparr> =
     (Inr \<lparr>Items = [row ''b'', row ''a'', row ''b'']\<rparr>, 1)"
    by (simp add: counting_aws_def start_def)
  have h3: "map (\<lambda>item. item ''SUB_REDDIT'') (Items \<lparr>Items = [row ''b'', row ''a'', row ''b'']\<rparr>) =
     map (\<lambda>name. Some (AttrS name)) [''b'', ''a'', ''b'']"
    by (simp add: row_def)
  have r: "fst (getSubRedditList ?ddb table_env start) = Inr [Some ''b'', Some ''a'', Some ''b'']"
    using table_list_is_projection [OF h1 h2 h3] by simp
  show ?thesis
    by (intro conjI h1 h2 h3 r)
qed

text \<open>
  C7. With the switch off: a string of three tokens between two commas gives the three tokens
  in order, a non-empty string with no comma gives the one-element list of itself, and an
  absent or empty \<open>SUBREDDITS_TO_FOLLOW\<close> throws the configuration error, no list is returned
  and the world is left as it was.
\<close>

theorem static_list_split:
  assumes "READ_SUBREDDITS_FROM_DDB e \<noteq> Some ''TRUE''"
  shows "(SUBREDDITS_TO_FOLLOW e = Some (a @ '','' @ b @ '','' @ c) \<and>
          CHR '','' \<notin> set a \<and> CHR '','' \<notin> set b \<and> CHR '','' \<notin> set c \<longrightarrow>
            fst (getSubRedditList aws e w) = Inr [Some a, Some b, Some c]) \<and>
         (SUBREDDITS_TO_FOLLOW e = Some t \<and> t \<noteq> [] \<and> CHR '','' \<notin> set t \<longrightarrow>
            fst (getSubRedditList aws e w) = Inr [Some t]) \<and>
         (SUBREDDITS_TO_FOLLOW e = None \<or> SUBREDDITS_TO_FOLLOW e = Some [] \<longrightarrow>
            getSubRedditList aws e w = (Inl (Error no_source_message), w))"
proof (intro conjI impI)
  assume abc: "SUBREDDITS_TO_FOLLOW e = Some (a @ '','' @ b @ '','' @ c) \<and>
          CHR '','' \<notin> set a \<and> CHR '','' \<notin> set b \<and> CHR '','' \<notin> set c"
  then have "String_split CHR '','' (a @ '','' @ b @ '','' @ c) = [a, b, c]"
    by (simp add: String_split_token String_split_no_sep)
  with abc show "fst (getSubRedditList aws e w) = Inr [Some a, Some b, Some c]"
    using getSubRedditList_static [OF assms, of aws w] by simp
next
  assume one: "SUBREDDITS_TO_FOLLOW e = Some t \<and> t \<noteq> [] \<and> CHR '','' \<notin> set t"
  then have "String_split CHR '','' t = [t]"
    by (simp add: String_split_no_sep)
  with one show "fst (getSubRedditList aws e w) = Inr [Some t]"
    using getSubRedditList_static [OF assms, of aws w] by simp
next
  assume "SUBREDDITS_TO_FOLLOW e = None \<or> SUBREDDITS_TO_FOLLOW e = Some []"
  then show "getSubRedditList aws e w = (Inl (Error no_source_message), w)"
    using assms by (auto simp: getSubRedditList_def truthy_def)
qed

theorem static_list_split_witness:
  "READ_SUBREDDITS_FROM_DDB (static_env ''a,b,c'') \<noteq> Some ''TRUE'' \<and>
   fst (getSubRedditList (counting_aws (Inr \<lparr>Items = []\<rparr>) (\<lambda>n. Inr \<lparr>FailedEntryCount = 0\<rparr>))
     (static_env ''a,b,c'') start) = Inr [Some ''a'', Some ''b'', Some ''c''] \<and>
   READ_SUBREDDITS_FROM_DDB (static_env ''aws'') \<noteq> Some ''TRUE'' \<and>
   fst (getSubRedditList (counting_aws (Inr \<lparr>Items = []\<rparr>) (\<lambda>n. Inr \<lparr>FailedEntryCount = 0\<rparr>))
     (static_env ''aws'') start) = Inr [Some ''aws''] \<and>
   READ_SUBREDDITS_FROM_DDB (static_env '''') \<noteq> Some ''TRUE'' \<and>
   getSubRedditList (counting_aws (Inr \<lparr>Items = []\<rparr>) (\<lambda>n. Inr \<lparr>FailedEntryCount = 0\<rparr>))
     (static_env '''') start = (Inl (Error no_source_message), start) \<and>
   READ_SUBREDDITS_FROM_DDB (static_env ''''\<lparr>SUBREDDITS_TO_FOLLOW := None\<rparr>) \<noteq> Some ''TRUE'' \<and>
   getSubRedditList (counting_aws (Inr \<lparr>Items = []\<rparr>) (\<lambda>n. Inr \<lparr>FailedEntryCount = 0\<rparr>))
     (static_env ''''\<lparr>SUBREDDITS_TO_FOLLOW := None\<rparr>) start = (Inl (Error no_source_message), start)"
proof -
  let ?aws = "counting_aws (Inr \<lparr>Items = []\<rparr>) (\<lambda>n. Inr \<lparr>FailedEntryCount = 0\<rparr>)"
  have off: "READ_SUBREDDITS_FROM_DDB (static_env s) \<noteq> Some ''TRUE''" for s
    by (simp add: static_env_def)
  have off': "READ_SUBREDDITS_FROM_DDB (static_env ''''\<lparr>SUBREDDITS_TO_FOLLOW := None\<rparr>) \<noteq> Some ''TRUE''"
    by (simp add: static_env_def)
  have r1: "fst (getSubRedditList ?aws (static_env ''a,b,c'') start) = Inr [Some ''a'', Some ''b'', Some ''c'']"
    using static_list_split [OF off, of "''a,b,c''" "''a''" "''b''" "''c''" ?aws start "''a,b,c''"]
    by (simp add: static_env_def)
  have r2: "fst (getSubRedditList ?aws (static_env ''aws'') start) = Inr [Some ''aws'']"
    using static_list_split [OF off, of "''aws''" "''a''" "''b''" "''c''" ?aws start "''aws''"]
    by (simp add: static_env_def)
  have r3: "getSubRedditList ?aws (static_env '''') start = (Inl (Error no_source_message), start)"
    using static_list_split [OF off, of "''''" "''a''" "''b''" "''c''" ?aws start "''aws''"]
    by (simp add: static_env_def)
  have r4: "getSubRedditList ?aws (static_env ''''\<lparr>SUBREDDITS_TO_FOLLOW := None\<rparr>) start =
      (Inl (Error no_source_message), start)"
    using static_list_split [OF off', of "''a''" "''b''" "''c''" ?aws start "''aws''"]
    by simp
  show ?thesis
    by (intro conjI off off' r1 r2 r3 r4)
qed

text \<open>
  C8. With the switch on, an error of the scan call is thrown again as it is: the list
  provider makes the one scan call and no other, and an invocation whose environment check
  passed fails with that same error after the scan call alone, before any \<open>putEvents\<close>.
\<close>

theorem scan_error_propagates:
  assumes "READ_SUBREDDITS_FROM_DDB e = Some ''TRUE''"
    and "scan aws (service w) \<lparr>TableName = SOURCE_DDB_TABLE e\<rparr> = (Inl ddbError, s')"
  shows "getSubRedditList aws e w =
           (Inl ddbError,
            w\<lparr>service := s',
              calls := calls w @ [ScanCall \<lparr>TableName = SOURCE_DDB_TABLE e\<rparr>],
              console := console w @ [ErrorDDB ddbError]\<rparr>) \<and>
         (checkEnvSetup e = Inr () \<longrightarrow>
            fst (handler aws e w) = Inl ddbError \<and>
            calls (snd (handler aws e w)) =
              calls w @ [ScanCall \<lparr>TableName = SOURCE_DDB_TABLE e\<rparr>])"
proof -
  have list: "getSubRedditList aws e w =
           (Inl ddbError,
            w\<lparr>service := s',
              calls := calls w @ [ScanCall \<lparr>TableName = SOURCE_DDB_TABLE e\<rparr>],
              console := console w @ [ErrorDDB ddbError]\<rparr>)"
    using assms by (simp add: getSubRedditList_def)
  then show ?thesis
    by (simp add: handler_env_ok)
qed

theorem scan_error_propagates_witness:
  "READ_SUBREDDITS_FROM_DDB table_env = Some ''TRUE'' \<and>
   scan (counting_aws (Inl (ServiceError ''ResourceNotFoundException'')) (\<lambda>n. Inr \<lparr>FailedEntryCount = 0\<rparr>))
     (service start) \<lparr>TableName = SOURCE_DDB_TABLE table_env\<rparr> =
     (Inl (ServiceError ''ResourceNotFoundException''), 1) \<and>
   checkEnvSetup table_env = Inr () \<and>
   fst (handler (counting_aws (Inl (ServiceError ''ResourceNotFoundException'')) (\<lambda>n. Inr \<lparr>FailedEntryCount = 0\<rparr>))
     table_env start) = Inl (ServiceError ''ResourceNotFoundException'') \<and>
   calls (snd (handler (counting_aws (Inl (ServiceError ''ResourceNotFoundException'')) (\<lambda>n. Inr \<lparr>FailedEntryCount = 0\<rparr>))
     table_env start)) = [ScanCall \<lparr>TableName = Some ''t1''\<rparr>]"
proof -
  let ?aws = "counting_aws (Inl (ServiceError ''ResourceNotFoundException'')) (\<lambda>n. Inr \<lparr>FailedEntryCount = 0\<rparr>)"
  have h1: "READ_SUBREDDITS_FROM_DDB table_env = Some ''TRUE''"
    by (simp add: table_env_def)
  have h2: "scan ?aws (service start) \<lparr>TableName = SOURCE_DDB_TABLE table_env\<rparr> =
     (Inl (ServiceError ''ResourceNotFoundException''), 1)"
    by (simp add: counting_aws_def start_def)
  have h3: "checkEnvSetup table_env = Inr ()"
    by (simp add: checkEnvSetup_def table_env_def truthy_def)
  have r: "fst (handler ?aws table_env start) = Inl (ServiceError ''ResourceNotFoundException'') \<and>
      calls (snd (handler ?aws table_env start)) = [ScanCall \<lparr>TableName = Some ''t1''\<rparr>]"
    using h3 scan_error_propagates [OF h1 h2]
    by (simp add: start_def table_env_def)
  show ?thesis
    by (intro conjI h1 h2 h3 conjunct1 [OF r] conjunct2 [OF r])
qed

text \<open>
  C9. On the empty list the publisher makes no call and returns normally; an invocation whose
  scan returns zero rows makes the scan call only and returns normally.
\<close>

theorem empty_list_no_calls:
  "publishSubReddits aws e [] w = (Inr (), w) \<and>
   (checkEnvSetup e = Inr () \<and> READ_SUBREDDITS_FROM_DDB e = Some ''TRUE'' \<and>
    scan aws (service w) \<lparr>TableName = SOURCE_DDB_TABLE e\<rparr> = (Inr ddbResponse, s') \<and>
    Items ddbResponse = [] \<longrightarrow>
      fst (handler aws e w) = Inr () \<and>
      calls (snd (handler aws e w)) = calls w @ [ScanCall \<lparr>TableName = SOURCE_DDB_TABLE e\<rparr>])"
  by (simp add: handler_env_ok getSubRedditList_def)

theorem empty_list_no_calls_witness:
  "publishSubReddits (counting_aws (Inr \<lparr>Items = []\<rparr>) (\<lambda>n. Inl (ServiceError ''AccessDeniedException'')))
     table_env [] start = (Inr (), start) \<and>
   checkEnvSetup table_env = Inr () \<and>
   READ_SUBREDDITS_FROM_DDB table_env = Some ''TRUE'' \<and>
   scan (counting_aws (Inr \<lparr>Items = []\<rparr>) (\<lambda>n. Inl (ServiceError ''AccessDeniedException'')))
     (service start) \<lparr>TableName = SOURCE_DDB_TABLE table_env\<rparr> = (Inr \<lparr>Items = []\<rparr>, 1) \<and>
   fst (handler (counting_aws (Inr \<lparr>Items = []\<rparr>) (\<lambda>n. Inl (ServiceError ''AccessDeniedException'')))
     table_env start) = Inr () \<and>
   calls (snd (handler (counting_aws (Inr \<lparr>Items = []\<rparr>) (\<lambda>n. Inl (ServiceError ''AccessDeniedException'')))
     table_env start)) = [ScanCall \<lparr>TableName = Some ''t1''\<rparr>]"
proof -
  let ?aws = "counting_aws (Inr \<lparr>Items = []\<rparr>) (\<lambda>n. Inl (ServiceError ''AccessDeniedException''))"
  have h1: "checkEnvSetup table_env = Inr ()"
    by (simp add: checkEnvSetup_def table_env_def truthy_def)
  have h2: "READ_SUBREDDITS_FROM_DDB table_env = Some ''TRUE''"
    by (simp add: table_env_def)
  have h3: "scan ?aws (service start) \<lparr>TableName = SOURCE_DDB_TABLE table_env\<rparr> = (Inr \<lparr>Items = []\<rparr>, 1)"
    by (simp add: counting_aws_def start_def)
  note inst = empty_list_no_calls [of ?aws table_env start "\<lparr>Items = []\<rparr>" 1]
  have r0: "publishSubReddits ?aws table_env [] start = (Inr (), start)"
    using inst by blast
  have r: "fst (handler ?aws table_env start) = Inr () \<and>
      calls (snd (handler ?aws table_env start)) = [ScanCall \<lparr>TableName = Some ''t1''\<rparr>]"
    using h1 h2 h3 inst by (simp add: start_def table_env_def)
  show ?thesis
    by (intro conjI r0 h1 h2 h3 conjunct1 [OF r] conjunct2 [OF r])
qed

text \<open>
  C10. The tokens of the static list are published as the split produces them, with no
  trimming and no check: when no call is rejected the invocation makes one \<open>putEvents\<close> call
  per token, in order; joining the tokens with commas gives the configured string back, there
  is one token more than commas, and a trailing comma or two commas in a row produce an empty
  token, which is published like any other.
\<close>

theorem static_tokens_published_verbatim:
  assumes "checkEnvSetup e = Inr ()"
    and "READ_SUBREDDITS_FROM_DDB e \<noteq> Some ''TRUE''"
    and "SUBREDDITS_TO_FOLLOW e = Some s" and "s \<noteq> []"
    and "\<forall>st r. \<exists>response st'. putEvents aws st r = (Inr response, st')"
  shows "fst (handler aws e w) = Inr () \<and>
         calls (snd (handler aws e w)) =
           calls w @
           map (\<lambda>token. PutEventsCall (putEvents_params e (Some token))) (String_split CHR '','' s) \<and>
         Array_join '','' (String_split CHR '','' s) = s \<and>
         length (String_split CHR '','' s) = Suc (count_list s CHR '','') \<and>
         String_split CHR '','' (xs @ '','') = String_split CHR '','' xs @ [''''] \<and>
         String_split CHR '','' (xs @ '',,'' @ ys) =
           String_split CHR '','' xs @ [''''] @ String_split CHR '','' ys"
proof -
  have list: "getSubRedditList aws e w =
      (Inr (map Some (String_split CHR '','' s)),
       w\<lparr>console := console w @ [DebugPublishingFollowing (String_split CHR '','' s)]\<rparr>)"
    using assms(2,3,4) by (simp add: getSubRedditList_def truthy_def)
  let ?w = "w\<lparr>console := console w @ [DebugPublishingFollowing (String_split CHR '','' s)]\<rparr>"
  obtain w' where run:
    "publishSubReddits aws e (map Some (String_split CHR '','' s)) ?w = (Inr (), w')"
    using publishSubReddits_never_rejected [OF assms(5)] by blast
  have "calls w' = calls ?w @
      map (\<lambda>x. PutEventsCall (putEvents_params e x)) (map Some (String_split CHR '','' s))"
    by (rule publishSubReddits_returns_calls [OF run])
  then have c: "calls w' = calls w @
      map (\<lambda>token. PutEventsCall (putEvents_params e (Some token))) (String_split CHR '','' s)"
    by (simp add: comp_def)
  have h: "handler aws e w = (Inr (), w')"
    using assms(1) list run by (simp add: handler_env_ok)
  have j: "Array_join '','' (String_split CHR '','' s) = s"
    using String_split_join [of "CHR '',''" s] by simp
  have t: "String_split CHR '','' (xs @ '','') = String_split CHR '','' xs @ ['''']"
    using String_split_append [of "CHR '',''" xs "[]"] by simp
  have d: "String_split CHR '','' (xs @ '',,'' @ ys) =
           String_split CHR '','' xs @ [''''] @ String_split CHR '','' ys"
    using String_split_append [of "CHR '',''" xs "CHR '','' # ys"] by simp
  show ?thesis
    using h c j t d by (simp add: String_split_length)
qed

theorem static_tokens_published_verbatim_witness:
  "checkEnvSetup (static_env ''a,,b,'') = Inr () \<and>
   READ_SUBREDDITS_FROM_DDB (static_env ''a,,b,'') \<noteq> Some ''TRUE'' \<and>
   SUBREDDITS_TO_FOLLOW (static_env ''a,,b,'') = Some ''a,,b,'' \<and>
   ''a,,b,'' \<noteq> [] \<and>
   (\<forall>st r. \<exists>response st'.
      putEvents (counting_aws (Inr \<lparr>Items = []\<rparr>) (\<lambda>n. Inr \<lparr>FailedEntryCount = 0\<rparr>)) st r =
        (Inr response, st')) \<and>
   fst (handler (counting_aws (Inr \<lparr>Items = []\<rparr>) (\<lambda>n. Inr \<lparr>FailedEntryCount = 0\<rparr>))
     (static_env ''a,,b,'') start) = Inr () \<and>
   calls (snd (handler (counting_aws (Inr \<lparr>Items = []\<rparr>) (\<lambda>n. Inr \<lparr>FailedEntryCount = 0\<rparr>))
     (static_env ''a,,b,'') start)) =
     [PutEventsCall (putEvents_params (static_env ''a,,b,'') (Some ''a'')),
      PutEventsCall (putEvents_params (static_env ''a,,b,'') (Some '''')),
      PutEventsCall (putEvents_params (static_env ''a,,b,'') (Some ''b'')),
      PutEventsCall (putEvents_params (static_env ''a,,b,'') (Some ''''))] \<and>
   putEvents_params (static_env ''a,,b,'') (Some '''') =
     \<lparr>Entries = [\<lparr>EventBusName = Some ''bus1'', DetailType = ''subreddit'',
        Source = Some ''ns1'',
        Detail = ''{'' @ [CHR 0x22] @ ''name'' @ [CHR 0x22] @ '':'' @ [CHR 0x22, CHR 0x22] @
          '','' @ [CHR 0x22] @ ''type'' @ [CHR 0x22] @ '':'' @ [CHR 0x22] @ ''subreddit'' @
          [CHR 0x22] @ ''}''\<rparr>]\<rparr>"
proof -
  let ?aws = "counting_aws (Inr \<lparr>Items = []\<rparr>) (\<lambda>n. Inr \<lparr>FailedEntryCount = 0\<rparr>)"
  have h1: "checkEnvSetup (static_env ''a,,b,'') = Inr ()"
    by (simp add: checkEnvSetup_def static_env_def truthy_def)
  have h2: "READ_SUBREDDITS_FROM_DDB (static_env ''a,,b,'') \<noteq> Some ''TRUE''"
    by (simp add: static_env_def)
  have h3: "SUBREDDITS_TO_FOLLOW (static_env ''a,,b,'') = Some ''a,,b,''"
    by (simp add: static_env_def)
  have h4: "''a,,b,'' \<noteq> []" by simp
  have h5: "\<forall>st r. \<exists>response st'. putEvents ?aws st r = (Inr response, st')"
    by (simp add: counting_aws_def)
  have r: "fst (handler ?aws (static_env ''a,,b,'') start) = Inr () \<and>
     calls (snd (handler ?aws (static_env ''a,,b,'') start)) =
     [PutEventsCall (putEvents_params (static_env ''a,,b,'') (Some ''a'')),
      PutEventsCall (putEvents_params (static_env ''a,,b,'') (Some '''')),
      PutEventsCall (putEvents_params (static_env ''a,,b,'') (Some ''b'')),
      PutEventsCall (putEvents_params (static_env ''a,,b,'') (Some ''''))]"
    using static_tokens_published_verbatim [OF h1 h2 h3 h4 h5, of start]
    by (simp add: start_def)
  have p: "putEvents_params (static_env ''a,,b,'') (Some '''') =
     \<lparr>Entries = [\<lparr>EventBusName = Some ''bus1'', DetailType = ''subreddit'',
        Source = Some ''ns1'',
        Detail = ''{'' @ [CHR 0x22] @ ''name'' @ [CHR 0x22] @ '':'' @ [CHR 0x22, CHR 0x22] @
          '','' @ [CHR 0x22] @ ''type'' @ [CHR 0x22] @ '':'' @ [CHR 0x22] @ ''subreddit'' @
          [CHR 0x22] @ ''}''\<rparr>]\<rparr>"
    by (simp add: putEvents_params_def static_env_def JSON_stringify_name_type QuoteJSONString_def)
  show ?thesis
    by (intro conjI h1 h2 h3 h4 h5 conjunct1 [OF r] conjunct2 [OF r] p)
qed

end
